theory Spec2Isabelle
  imports Complex_Main
begin

section \<open>Embedding of lib/gemlogconf.py\<close>

text \<open>
  Strings are lists of characters, each character a code point below 256. The file
  system and the logging facility are outside the module: what \<^verbatim>\<open>open\<close>,
  \<^verbatim>\<open>readlines\<close> and \<^verbatim>\<open>os.path.getmtime\<close> answer is an input
  of the model (a value or the exception raised). Of the logging facility the model
  keeps the threshold test of \<^verbatim>\<open>logging.Logger\<close>, which decides whether a call logs
  its message.
\<close>

subsection \<open>Exceptions\<close>

datatype exn =
    Exception string
  | IndexError
  | ValueError string
  | SystemExit exn

fun str :: "exn \<Rightarrow> string" where
  "str (Exception m) = m"
| "str IndexError = ''list index out of range''"
| "str (ValueError m) = m"
| "str (SystemExit e) = str e"

subsection \<open>The logger handle\<close>

definition NOTSET :: nat where "NOTSET = 0"
definition DEBUG :: nat where "DEBUG = 10"
definition INFO :: nat where "INFO = 20"
definition WARNING :: nat where "WARNING = 30"
definition ERROR :: nat where "ERROR = 40"
definition CRITICAL :: nat where "CRITICAL = 50"

text \<open>
  A logger: its own level, the first level other than NOTSET among its ancestors
  (NOTSET when there is none), and the messages it has logged, each with its severity,
  in order. The logger is not disabled and \<^verbatim>\<open>logging.disable\<close> is not in force,
  which are the defaults; the module changes neither.
\<close>

record logger =
  level :: nat
  inherited :: nat
  logged :: "(nat \<times> string) list"

definition setLevel :: "nat \<Rightarrow> logger \<Rightarrow> logger" where
  "setLevel n logger = logger\<lparr>level := n\<rparr>"

text \<open>
  \<^verbatim>\<open>Logger.getEffectiveLevel\<close> and \<^verbatim>\<open>Logger.isEnabledFor\<close>: the own level
  counts unless it is NOTSET, and a severity below the effective level is not enabled.
\<close>

definition getEffectiveLevel :: "logger \<Rightarrow> nat" where
  "getEffectiveLevel logger =
     (if level logger \<noteq> NOTSET then level logger else inherited logger)"

definition isEnabledFor :: "nat \<Rightarrow> logger \<Rightarrow> bool" where
  "isEnabledFor sev logger = (getEffectiveLevel logger \<le> sev)"

text \<open>
  \<^verbatim>\<open>Logger.info\<close>, \<^verbatim>\<open>Logger.error\<close> and \<^verbatim>\<open>Logger.critical\<close> log the
  message only if the logger is enabled for their severity; otherwise the call does
  nothing.
\<close>

definition log_call :: "nat \<Rightarrow> string \<Rightarrow> logger \<Rightarrow> logger" where
  "log_call sev msg logger =
     (if isEnabledFor sev logger
      then logger\<lparr>logged := logged logger @ [(sev, msg)]\<rparr>
      else logger)"

definition info :: "string \<Rightarrow> logger \<Rightarrow> logger" where
  "info msg logger = log_call INFO msg logger"

definition error :: "string \<Rightarrow> logger \<Rightarrow> logger" where
  "error msg logger = log_call ERROR msg logger"

definition critical :: "string \<Rightarrow> logger \<Rightarrow> logger" where
  "critical msg logger = log_call CRITICAL msg logger"

text \<open>The dictionary \<^verbatim>\<open>log_level\<close>, in the order it is written.\<close>

definition log_level :: "(string \<times> nat) list" where
  "log_level =
     [(''DEBUG'', DEBUG),
      (''INFO'', INFO),
      (''WARNING'', WARNING),
      (''ERROR'', ERROR),
      (''CRITICAL'', CRITICAL)]"

subsection \<open>Regular expressions\<close>

text \<open>
  The two filters use literals, character classes, one star and the anchor
  \<^verbatim>\<open>^\<close>. A pattern is a sequence of items; \<open>match_here\<close> says whether the
  sequence matches some prefix of the text, trying every length the star can take, as
  the backtracking matcher of \<^verbatim>\<open>re\<close> does.
\<close>

datatype atom =
    Lit char
  | OneOf "char list"
  | NoneOf "char list"

datatype item =
    One atom
  | Many atom

record pattern =
  anchored :: bool
  items :: "item list"

fun atom_ok :: "atom \<Rightarrow> char \<Rightarrow> bool" where
  "atom_ok (Lit a) c = (c = a)"
| "atom_ok (OneOf cs) c = (c \<in> set cs)"
| "atom_ok (NoneOf cs) c = (c \<notin> set cs)"

fun match_here :: "item list \<Rightarrow> string \<Rightarrow> bool" where
  "match_here [] s = True"
| "match_here (One a # ps) [] = False"
| "match_here (One a # ps) (c # cs) = (atom_ok a c \<and> match_here ps cs)"
| "match_here (Many a # ps) [] = match_here ps []"
| "match_here (Many a # ps) (c # cs) =
     ((atom_ok a c \<and> match_here (Many a # ps) cs) \<or> match_here ps (c # cs))"

fun search_from :: "item list \<Rightarrow> string \<Rightarrow> bool" where
  "search_from ps [] = match_here ps []"
| "search_from ps (c # cs) = (match_here ps (c # cs) \<or> search_from ps cs)"

text \<open>
  \<^verbatim>\<open>pattern.search(s)\<close>: a match starting anywhere in \<open>s\<close>; with the anchor
  (and no MULTILINE flag) only a match starting at the first character.
\<close>

definition search :: "pattern \<Rightarrow> string \<Rightarrow> bool" where
  "search p s = (if anchored p then match_here (items p) s else search_from (items p) s)"

text \<open>\<^verbatim>\<open>cmnt_filt = re.compile(r'^[ ]*[^#]')\<close>\<close>

definition cmnt_filt :: pattern where
  "cmnt_filt = \<lparr>anchored = True, items = [Many (OneOf '' ''), One (NoneOf ''#'')]\<rparr>"

text \<open>\<^verbatim>\<open>level_filt = re.compile(r'level=')\<close>\<close>

definition level_filt :: pattern where
  "level_filt = \<lparr>anchored = False, items = map (\<lambda>c. One (Lit c)) ''level=''\<rparr>"

subsection \<open>String and file primitives\<close>

text \<open>
  \<^verbatim>\<open>f.readlines()\<close> on the text of the file, as text mode delivers it (line ends
  already translated to the newline character): each line keeps its newline, the last
  line has one only if the text ends with one.
\<close>

fun readlines_from :: "string \<Rightarrow> string \<Rightarrow> string list" where
  "readlines_from acc [] = (if acc = [] then [] else [acc])"
| "readlines_from acc (c # cs) =
     (if c = CHR 0x0A then (acc @ [c]) # readlines_from [] cs
      else readlines_from (acc @ [c]) cs)"

definition readlines :: "string \<Rightarrow> string list" where
  "readlines text = readlines_from [] text"

text \<open>The characters \<^verbatim>\<open>str.isspace\<close> accepts among the code points below 256.\<close>

definition isspace :: "char \<Rightarrow> bool" where
  "isspace c =
     (let n = (of_char c :: nat)
      in (9 \<le> n \<and> n \<le> 13) \<or> (28 \<le> n \<and> n \<le> 32) \<or> n = 133 \<or> n = 160)"

definition strip :: "string \<Rightarrow> string" where
  "strip s = rev (dropWhile isspace (rev (dropWhile isspace s)))"

text \<open>\<^verbatim>\<open>s.split(sep)\<close> for a separator of one character.\<close>

fun split_from :: "char \<Rightarrow> string \<Rightarrow> string \<Rightarrow> string list" where
  "split_from sep acc [] = [acc]"
| "split_from sep acc (c # cs) =
     (if c = sep then acc # split_from sep [] cs
      else split_from sep (acc @ [c]) cs)"

definition split :: "char \<Rightarrow> string \<Rightarrow> string list" where
  "split sep s = split_from sep [] s"

text \<open>\<^verbatim>\<open>xs[1]\<close>, which raises IndexError on a list shorter than two.\<close>

fun item1 :: "'a list \<Rightarrow> exn + 'a" where
  "item1 (x # y # ys) = Inr y"
| "item1 xs = Inl IndexError"

text \<open>
  The list comprehension both functions build from the file:
  \<^verbatim>\<open>[l.strip() for l in f.readlines() if cmnt_filt.search(l)]\<close>
\<close>

definition conf_raw :: "string \<Rightarrow> string list" where
  "conf_raw text = map strip (filter (search cmnt_filt) (readlines text))"

subsection \<open>set_log_level\<close>

text \<open>
  The \<^verbatim>\<open>for ... else\<close> loop of \<^verbatim>\<open>set_log_level\<close> over the retained lines:
  the empty list is the \<^verbatim>\<open>else\<close> branch, reached when no line broke the loop.
\<close>

fun set_scan :: "string \<Rightarrow> string list \<Rightarrow> logger \<Rightarrow> exn + logger" where
  "set_scan config_file [] logger =
     Inr (critical ''Level has beem set to INFO''
           (critical (''Theres no level configuration in '' @ config_file) logger))"
| "set_scan config_file (l # ls) logger =
     (if \<not> search level_filt l then set_scan config_file ls logger
      else case item1 (split CHR ''='' l) of
        Inl e \<Rightarrow> Inl e
      | Inr lvl \<Rightarrow>
          (case map_of log_level lvl of
             Some n \<Rightarrow>
               Inr (info (''Log level started as: '' @ lvl) (setLevel n logger))
           | None \<Rightarrow>
               Inr (critical ''Level has been set to INFO''
                     (critical (''Bad option in '' @ config_file @ ''. Level: '' @ lvl
                                 @ '' is not valid'') logger))))"

text \<open>
  \<open>opened\<close> is what opening and reading the file gives: its text, or the exception
  raised. The handler turns any exception into \<^verbatim>\<open>sys.exit(e)\<close>.
\<close>

definition set_log_level :: "string \<Rightarrow> exn + string \<Rightarrow> logger \<Rightarrow> exn + logger" where
  "set_log_level config_file opened logger =
     (let logger = setLevel (the (map_of log_level ''INFO'')) logger
      in case opened of
           Inl e \<Rightarrow> Inl (SystemExit e)
         | Inr text \<Rightarrow> set_scan config_file (conf_raw text) logger)"

subsection \<open>log_level_thread\<close>

text \<open>
  One tick of the environment: what \<^verbatim>\<open>os.path.getmtime\<close> answers after the
  sleep, and what opening and reading the file would give at that moment. A modification
  time is a finite float; the loop only subtracts two of them and tests the difference
  for zero, which on finite floats holds exactly when the two are equal, as it does on
  the reals used here.
\<close>

record tick =
  getmtime :: "exn + real"
  content :: "exn + string"

text \<open>
  The state of the thread between two iterations: the local \<^verbatim>\<open>mod_time\<close>, the
  logger handle, and a count of the calls of \<^verbatim>\<open>open\<close> made so far.
\<close>

record watcher =
  mod_time :: real
  lg :: logger
  opens :: nat

fun thread_scan :: "string \<Rightarrow> string list \<Rightarrow> logger \<Rightarrow> exn + logger" where
  "thread_scan config_file [] logger =
     Inr (critical ''Level has beem set to INFO''
           (setLevel (the (map_of log_level ''INFO''))
             (critical (''There is no level configuration in '' @ config_file) logger)))"
| "thread_scan config_file (l # ls) logger =
     (if \<not> search level_filt l then thread_scan config_file ls logger
      else case item1 (split CHR ''='' l) of
        Inl e \<Rightarrow> Inl e
      | Inr lvl \<Rightarrow>
          (case map_of log_level lvl of
             Some n \<Rightarrow>
               Inr (info (''Log level changed to: '' @ lvl) (setLevel n logger))
           | None \<Rightarrow>
               Inr (critical ''Level has been set to INFO''
                     (setLevel (the (map_of log_level ''INFO''))
                       (critical (''Bad option in '' @ config_file @ ''. Level: '' @ lvl
                                   @ '' is not valid'') logger)))))"

text \<open>The body of the \<^verbatim>\<open>while True\<close> loop; \<open>Inl\<close> is an exception leaving it.\<close>

definition iteration :: "string \<Rightarrow> tick \<Rightarrow> watcher \<Rightarrow> exn + watcher" where
  "iteration config_file t w =
     (case getmtime t of
        Inl e \<Rightarrow>
          Inr (w\<lparr>lg := error ''Retrying geting mod time...''
                        (error (str e)
                          (error (''Conflict while getting mod time for '' @ config_file)
                            (lg w)))\<rparr>)
      | Inr curr_mtime \<Rightarrow>
          (if curr_mtime - mod_time w = 0 then Inr w
           else let w = w\<lparr>mod_time := curr_mtime, opens := Suc (opens w)\<rparr>
                in case content t of
                     Inl e \<Rightarrow>
                       Inr (w\<lparr>lg := error ''Retrying to set the log level...''
                                     (error (str e)
                                       (error (''Conflict while modifying '' @ config_file)
                                         (lg w)))\<rparr>)
                   | Inr text \<Rightarrow>
                       (case thread_scan config_file (conf_raw text) (lg w) of
                          Inl e \<Rightarrow> Inl e
                        | Inr logger \<Rightarrow> Inr (w\<lparr>lg := logger\<rparr>))))"

text \<open>
  The loop never ends by itself. \<open>poll\<close> runs it over the ticks given and returns the
  state reached, or the exception that ended the thread.
\<close>

fun poll :: "string \<Rightarrow> tick list \<Rightarrow> watcher \<Rightarrow> exn + watcher" where
  "poll config_file [] w = Inr w"
| "poll config_file (t # ts) w =
     (case iteration config_file t w of
        Inl e \<Rightarrow> Inl e
      | Inr w' \<Rightarrow> poll config_file ts w')"

text \<open>
  \<open>first_mtime\<close> is the answer to the call of \<^verbatim>\<open>os.path.getmtime\<close> before the
  loop, which no handler encloses.
\<close>

definition log_level_thread ::
  "string \<Rightarrow> exn + real \<Rightarrow> tick list \<Rightarrow> logger \<Rightarrow> exn + watcher" where
  "log_level_thread config_file first_mtime ticks logger =
     (case first_mtime of
        Inl e \<Rightarrow> Inl e
      | Inr t0 \<Rightarrow> poll config_file ticks \<lparr>mod_time = t0, lg = logger, opens = 0\<rparr>)"

subsection \<open>init_timertng_log\<close>

text \<open>
  \<^verbatim>\<open>dt.time(hour=rot_hour)\<close>, which raises ValueError outside 0..23.
\<close>

definition dt_time :: "int \<Rightarrow> exn + int" where
  "dt_time hour =
     (if 0 \<le> hour \<and> hour \<le> 23 then Inr hour
      else Inl (ValueError ''hour must be in 0..23''))"

text \<open>
  \<open>logger\<close> is the logger \<^verbatim>\<open>logging.getLogger(__name__)\<close> returns. \<open>handler\<close>
  is what constructing the \<^verbatim>\<open>TimedRotatingFileHandler\<close> on a log file gives: the
  constructor opens the file, and may raise. Its argument \<^verbatim>\<open>atTime\<close> is evaluated
  first. Neither is inside a \<^verbatim>\<open>try\<close>, and both come before the call of
  \<^verbatim>\<open>set_log_level\<close>. The thread is started last; an exception of the thread ends
  the thread, not the caller.
\<close>

definition init_timertng_log ::
  "string \<Rightarrow> string \<Rightarrow> int \<Rightarrow> logger \<Rightarrow> (string \<Rightarrow> exn + unit) \<Rightarrow> exn + string \<Rightarrow>
     exn + real \<Rightarrow> tick list \<Rightarrow> exn + logger \<times> (exn + watcher)" where
  "init_timertng_log config_file log_file rot_hour logger handler opened first_mtime ticks =
     (case dt_time rot_hour of
        Inl e \<Rightarrow> Inl e
      | Inr at_time \<Rightarrow>
          (case handler log_file of
             Inl e \<Rightarrow> Inl e
           | Inr log_handler \<Rightarrow>
               (case set_log_level config_file opened logger of
                  Inl e \<Rightarrow> Inl e
                | Inr logger \<Rightarrow>
                    Inr (logger, log_level_thread config_file first_mtime ticks logger))))"

section \<open>Properties of the primitives\<close>

text \<open>A sequence of literals matches at a position exactly when the text continues with it.\<close>

lemma match_here_lits:
  "match_here (map (\<lambda>c. One (Lit c)) w) s = (take (length w) s = w)"
proof (induction w arbitrary: s)
  case Nil
  show ?case by simp
next
  case (Cons a w)
  show ?case
  proof (cases s)
    case Nil
    then show ?thesis by simp
  next
    case (Cons c cs)
    with Cons.IH [of cs] show ?thesis by auto
  qed
qed

lemma search_from_lits:
  "search_from (map (\<lambda>c. One (Lit c)) w) s \<Longrightarrow> set w \<subseteq> set s"
proof (induction s)
  case Nil
  then show ?case by (simp add: match_here_lits)
next
  case (Cons c cs)
  from Cons.prems
  consider "take (length w) (c # cs) = w" | "search_from (map (\<lambda>c. One (Lit c)) w) cs"
    by (auto simp: match_here_lits)
  then show ?case
  proof cases
    case 1
    have "set (take (length w) (c # cs)) \<subseteq> set (c # cs)" by (rule set_take_subset)
    with 1 show ?thesis by simp
  next
    case 2
    with Cons.IH show ?thesis by auto
  qed
qed

lemma level_filt_has_eq: "search level_filt l \<Longrightarrow> CHR ''='' \<in> set l"
proof -
  assume "search level_filt l"
  then have "search_from (map (\<lambda>c. One (Lit c)) ''level='') l"
    by (simp add: search_def level_filt_def)
  then have "set ''level='' \<subseteq> set l" by (rule search_from_lits)
  then show ?thesis by simp
qed

text \<open>
  What \<^verbatim>\<open>cmnt_filt\<close> accepts: every line that is not empty and does not begin with
  \<open>#\<close>. Spaces before a \<open>#\<close> do not make the line a comment, since the negated class
  accepts a space.
\<close>

lemma search_cmnt_filt: "search cmnt_filt l = (l \<noteq> [] \<and> hd l \<noteq> CHR ''#'')"
  by (cases l) (auto simp: search_def cmnt_filt_def)

text \<open>The first two fields of a split.\<close>

lemma split_from_unfold:
  "split_from sep acc s =
     (acc @ takeWhile (\<lambda>c. c \<noteq> sep) s) #
       (case dropWhile (\<lambda>c. c \<noteq> sep) s of [] \<Rightarrow> [] | x # r \<Rightarrow> split_from sep [] r)"
  by (induction s arbitrary: acc) auto

lemma item1_split:
  assumes "sep \<in> set s"
  shows "item1 (split sep s) = Inr (takeWhile (\<lambda>c. c \<noteq> sep) (tl (dropWhile (\<lambda>c. c \<noteq> sep) s)))"
proof -
  from assms obtain x r where d: "dropWhile (\<lambda>c. c \<noteq> sep) s = x # r"
    by (cases "dropWhile (\<lambda>c. c \<noteq> sep) s") (auto simp: dropWhile_eq_Nil_conv)
  have "split sep s = takeWhile (\<lambda>c. c \<noteq> sep) s # split_from sep [] r"
    unfolding split_def by (subst split_from_unfold) (simp add: d)
  also have "split_from sep [] r = takeWhile (\<lambda>c. c \<noteq> sep) r # 
       (case dropWhile (\<lambda>c. c \<noteq> sep) r of [] \<Rightarrow> [] | x # r \<Rightarrow> split_from sep [] r)"
    by (subst split_from_unfold) simp
  finally show ?thesis by (simp add: d)
qed

lemma length_split: "sep \<in> set s \<Longrightarrow> 2 \<le> length (split sep s)"
  using item1_split [of sep s] by (cases "split sep s" rule: item1.cases) auto

lemma item1_nth: "2 \<le> length xs \<Longrightarrow> item1 xs = Inr (xs ! 1)"
  by (cases xs rule: item1.cases) auto

text \<open>
  Both loops stop at the first retained line that matches \<^verbatim>\<open>level_filt\<close>, so they
  are a case analysis on \<open>find\<close>.
\<close>

lemma set_scan_find:
  "set_scan cf conf logger =
     (case find (search level_filt) conf of
        None \<Rightarrow> Inr (critical ''Level has beem set to INFO''
                  (critical (''Theres no level configuration in '' @ cf) logger))
      | Some l \<Rightarrow>
         (case item1 (split CHR ''='' l) of
            Inl e \<Rightarrow> Inl e
          | Inr lvl \<Rightarrow>
             (case map_of log_level lvl of
                Some n \<Rightarrow> Inr (info (''Log level started as: '' @ lvl) (setLevel n logger))
              | None \<Rightarrow> Inr (critical ''Level has been set to INFO''
                     (critical (''Bad option in '' @ cf @ ''. Level: '' @ lvl
                                 @ '' is not valid'') logger)))))"
  by (induction conf) simp_all

lemma thread_scan_find:
  "thread_scan cf conf logger =
     (case find (search level_filt) conf of
        None \<Rightarrow> Inr (critical ''Level has beem set to INFO''
           (setLevel (the (map_of log_level ''INFO''))
             (critical (''There is no level configuration in '' @ cf) logger)))
      | Some l \<Rightarrow>
         (case item1 (split CHR ''='' l) of
            Inl e \<Rightarrow> Inl e
          | Inr lvl \<Rightarrow>
             (case map_of log_level lvl of
                Some n \<Rightarrow> Inr (info (''Log level changed to: '' @ lvl) (setLevel n logger))
              | None \<Rightarrow> Inr (critical ''Level has been set to INFO''
                     (setLevel (the (map_of log_level ''INFO''))
                       (critical (''Bad option in '' @ cf @ ''. Level: '' @ lvl
                                   @ '' is not valid'') logger))))))"
  by (induction conf) simp_all

section \<open>Properties of the two loops\<close>

text \<open>
  No exception leaves the loops over the retained lines, an iteration of the thread, or
  any number of iterations.
\<close>

lemma set_scan_total: "\<exists>logger'. set_scan cf conf logger = Inr logger'"
proof (cases "find (search level_filt) conf")
  case None
  then show ?thesis by (simp add: set_scan_find)
next
  case (Some l)
  then have "search level_filt l" by (auto simp: find_Some_iff)
  then have "CHR ''='' \<in> set l" by (rule level_filt_has_eq)
  then show ?thesis
    using Some by (simp add: set_scan_find item1_split split: option.split)
qed

lemma thread_scan_total: "\<exists>logger'. thread_scan cf conf logger = Inr logger'"
proof (cases "find (search level_filt) conf")
  case None
  then show ?thesis by (simp add: thread_scan_find)
next
  case (Some l)
  then have "search level_filt l" by (auto simp: find_Some_iff)
  then have "CHR ''='' \<in> set l" by (rule level_filt_has_eq)
  then show ?thesis
    using Some by (simp add: thread_scan_find item1_split split: option.split)
qed

lemma set_log_level_read:
  "set_log_level cf (Inr text) logger = set_scan cf (conf_raw text) (setLevel INFO logger)"
  by (simp add: set_log_level_def log_level_def)

lemma iteration_changed:
  assumes "getmtime t = Inr m" and "m \<noteq> mod_time w" and "content t = Inr text"
  shows "iteration cf t w =
     (case thread_scan cf (conf_raw text) (lg w) of
        Inl e \<Rightarrow> Inl e
      | Inr logger \<Rightarrow> Inr (w\<lparr>mod_time := m, opens := Suc (opens w), lg := logger\<rparr>))"
  using assms by (simp add: iteration_def split: sum.split)

lemma iteration_total: "\<exists>w'. iteration cf t w = Inr w'"
proof (cases "getmtime t")
  case (Inl e)
  then show ?thesis by (simp add: iteration_def)
next
  case curr: (Inr m)
  show ?thesis
  proof (cases "m = mod_time w")
    case True
    with curr show ?thesis by (simp add: iteration_def)
  next
    case changed: False
    show ?thesis
    proof (cases "content t")
      case (Inl e)
      with curr changed show ?thesis by (simp add: iteration_def)
    next
      case (Inr body)
      obtain logger' where "thread_scan cf (conf_raw body) (lg w) = Inr logger'"
        using thread_scan_total by blast
      with curr changed Inr show ?thesis by (simp add: iteration_changed)
    qed
  qed
qed

lemma poll_total: "\<exists>w'. poll cf ts w = Inr w'"
proof (induction ts arbitrary: w)
  case Nil
  show ?case by simp
next
  case (Cons t ts)
  obtain w1 where "iteration cf t w = Inr w1" using iteration_total by blast
  with Cons.IH [of w1] show ?case by simp
qed

text \<open>Ticks that show the stored modification time leave the state alone.\<close>

lemma poll_unchanged:
  "\<forall>t\<in>set ts. getmtime t = Inr (mod_time w) \<Longrightarrow> poll cf ts w = Inr w"
  by (induction ts) (simp_all add: iteration_def)

section \<open>Properties of the logger\<close>

text \<open>
  The levels of \<^verbatim>\<open>log_level\<close> are never NOTSET, so after \<^verbatim>\<open>setLevel\<close> with one
  of them the effective level is that level. The lemmas below give the logger after the
  sequences of calls the module makes.
\<close>

lemma level_of_name:
  "map_of log_level S = Some n \<Longrightarrow> n \<in> {DEBUG, INFO, WARNING, ERROR, CRITICAL}"
  by (auto simp: log_level_def split: if_splits)

lemma level_of_name_set: "map_of log_level S = Some n \<Longrightarrow> n \<noteq> NOTSET"
  by (auto simp: log_level_def NOTSET_def DEBUG_def INFO_def WARNING_def ERROR_def CRITICAL_def
      split: if_splits)

lemma log_call_logged:
  "log_call sev msg logger =
     logger\<lparr>logged := logged logger @ (if getEffectiveLevel logger \<le> sev then [(sev, msg)] else [])\<rparr>"
  by (simp add: log_call_def isEnabledFor_def)

lemma info_after_setLevel:
  "n \<noteq> NOTSET \<Longrightarrow>
   info msg (logger\<lparr>level := n\<rparr>) =
     logger\<lparr>level := n, logged := logged logger @ (if n \<le> INFO then [(INFO, msg)] else [])\<rparr>"
  by (simp add: info_def log_call_logged setLevel_def getEffectiveLevel_def)

lemma critical_twice_at_INFO:
  "critical m2 (critical m1 (logger\<lparr>level := INFO\<rparr>)) =
     logger\<lparr>level := INFO, logged := logged logger @ [(CRITICAL, m1), (CRITICAL, m2)]\<rparr>"
  by (simp add: critical_def log_call_logged setLevel_def getEffectiveLevel_def
      NOTSET_def INFO_def CRITICAL_def)

lemma critical_around_setLevel:
  "critical m2 ((critical m1 logger)\<lparr>level := INFO\<rparr>) =
     logger\<lparr>level := INFO,
            logged := logged logger @
              (if getEffectiveLevel logger \<le> CRITICAL then [(CRITICAL, m1)] else []) @
              [(CRITICAL, m2)]\<rparr>"
  by (simp add: critical_def log_call_logged setLevel_def getEffectiveLevel_def
      NOTSET_def INFO_def CRITICAL_def)

lemma error_thrice:
  "error m3 (error m2 (error m1 logger)) =
     logger\<lparr>logged := logged logger @
              (if getEffectiveLevel logger \<le> ERROR
               then [(ERROR, m1), (ERROR, m2), (ERROR, m3)] else [])\<rparr>"
  by (simp add: error_def log_call_logged getEffectiveLevel_def)

lemma INFO_of_dict: "the (map_of log_level ''INFO'') = INFO"
  by (simp add: log_level_def)

section \<open>Properties of the functions\<close>

lemma set_log_level_returns:
  "\<exists>logger'. set_log_level cf (Inr body) logger = Inr logger'
         \<and> level logger' \<in> {DEBUG, INFO, WARNING, ERROR, CRITICAL}"
proof (cases "find (search level_filt) (conf_raw body)")
  case None
  then show ?thesis
    by (simp add: set_log_level_read set_scan_find critical_twice_at_INFO setLevel_def)
next
  case (Some l)
  then have "search level_filt l" by (auto simp: find_Some_iff)
  then have "CHR ''='' \<in> set l" by (rule level_filt_has_eq)
  then obtain cand where c: "item1 (split CHR ''='' l) = Inr cand"
    by (simp add: item1_split)
  show ?thesis
  proof (cases "map_of log_level cand")
    case None
    with Some c show ?thesis
      by (simp add: set_log_level_read set_scan_find critical_twice_at_INFO setLevel_def)
  next
    case n: (Some n)
    from n have "n \<noteq> NOTSET" by (rule level_of_name_set)
    moreover from n have "n \<in> {DEBUG, INFO, WARNING, ERROR, CRITICAL}" by (rule level_of_name)
    ultimately show ?thesis using Some c n
      by (simp add: set_log_level_read set_scan_find info_after_setLevel setLevel_def)
  qed
qed

lemma iteration_getmtime_failed:
  "getmtime t = Inl e \<Longrightarrow>
   iteration cf t w =
     Inr (w\<lparr>lg := (lg w)\<lparr>logged := logged (lg w) @
            (if getEffectiveLevel (lg w) \<le> ERROR
             then [(ERROR, ''Conflict while getting mod time for '' @ cf),
                   (ERROR, str e),
                   (ERROR, ''Retrying geting mod time...'')]
             else [])\<rparr>\<rparr>)"
  by (simp add: iteration_def error_thrice)

lemma iteration_read_failed:
  "getmtime t = Inr m \<Longrightarrow> m \<noteq> mod_time w \<Longrightarrow> content t = Inl e \<Longrightarrow>
   iteration cf t w =
     Inr (w\<lparr>mod_time := m, opens := Suc (opens w),
            lg := (lg w)\<lparr>logged := logged (lg w) @
              (if getEffectiveLevel (lg w) \<le> ERROR
               then [(ERROR, ''Conflict while modifying '' @ cf),
                     (ERROR, str e),
                     (ERROR, ''Retrying to set the log level...'')]
               else [])\<rparr>\<rparr>)"
  by (simp add: iteration_def error_thrice)

lemma iteration_opens:
  assumes "getmtime t = Inr m" and "m \<noteq> mod_time w"
  shows "\<exists>w'. iteration cf t w = Inr w' \<and> mod_time w' = m \<and> opens w' = Suc (opens w)"
proof (cases "content t")
  case (Inl x)
  with assms show ?thesis by (simp add: iteration_def)
next
  case (Inr body)
  obtain logger' where "thread_scan cf (conf_raw body) (lg w) = Inr logger'"
    using thread_scan_total by blast
  with assms Inr show ?thesis by (simp add: iteration_changed)
qed

section \<open>The claims\<close>

text \<open>
  C1, as the code has it. A line that matches \<^verbatim>\<open>level_filt\<close> has a \<open>=\<close>, and the
  candidate \<^verbatim>\<open>l.split('=')[1]\<close> is the text between the first \<open>=\<close> of the line and
  the next one (or the end of the line when there is no other). For the first such line
  among the retained ones, it is this candidate that \<^verbatim>\<open>set_log_level\<close> and
  \<^verbatim>\<open>log_level_thread\<close> look up in \<^verbatim>\<open>log_level\<close>: a name of the dictionary sets
  that level, anything else is the bad option and leaves INFO.
\<close>

theorem candidate_is_second_field:
  assumes "search level_filt l"
    and "cand = takeWhile (\<lambda>c. c \<noteq> CHR ''='') (tl (dropWhile (\<lambda>c. c \<noteq> CHR ''='') l))"
  shows "item1 (split CHR ''='' l) = Inr cand
    \<and> (find (search level_filt) (conf_raw body) = Some l \<longrightarrow>
         set_log_level cf (Inr body) logger =
           (case map_of log_level cand of
              Some n \<Rightarrow>
                Inr (logger\<lparr>level := n,
                           logged := logged logger @
                             (if n \<le> INFO then [(INFO, ''Log level started as: '' @ cand)]
                              else [])\<rparr>)
            | None \<Rightarrow>
                Inr (logger\<lparr>level := INFO,
                           logged := logged logger @
                             [(CRITICAL, ''Bad option in '' @ cf @ ''. Level: '' @ cand
                                         @ '' is not valid''),
                              (CRITICAL, ''Level has been set to INFO'')]\<rparr>))
         \<and> (getmtime t = Inr m \<and> m \<noteq> mod_time w \<and> content t = Inr body \<longrightarrow>
              iteration cf t w =
                (case map_of log_level cand of
                   Some n \<Rightarrow>
                     Inr (w\<lparr>mod_time := m, opens := Suc (opens w),
                            lg := (lg w)\<lparr>level := n,
                                          logged := logged (lg w) @
                                            (if n \<le> INFO
                                             then [(INFO, ''Log level changed to: '' @ cand)]
                                             else [])\<rparr>\<rparr>)
                 | None \<Rightarrow>
                     Inr (w\<lparr>mod_time := m, opens := Suc (opens w),
                            lg := (lg w)\<lparr>level := INFO,
                                          logged := logged (lg w) @
                                            (if getEffectiveLevel (lg w) \<le> CRITICAL
                                             then [(CRITICAL, ''Bad option in '' @ cf
                                                      @ ''. Level: '' @ cand @ '' is not valid'')]
                                             else []) @
                                            [(CRITICAL, ''Level has been set to INFO'')]\<rparr>\<rparr>))))"
proof -
  from assms(1) have "CHR ''='' \<in> set l" by (rule level_filt_has_eq)
  then have c: "item1 (split CHR ''='' l) = Inr cand"
    by (simp add: item1_split assms(2))
  have s: "set_log_level cf (Inr body) logger =
           (case map_of log_level cand of
              Some n \<Rightarrow>
                Inr (logger\<lparr>level := n,
                           logged := logged logger @
                             (if n \<le> INFO then [(INFO, ''Log level started as: '' @ cand)]
                              else [])\<rparr>)
            | None \<Rightarrow>
                Inr (logger\<lparr>level := INFO,
                           logged := logged logger @
                             [(CRITICAL, ''Bad option in '' @ cf @ ''. Level: '' @ cand
                                         @ '' is not valid''),
                              (CRITICAL, ''Level has been set to INFO'')]\<rparr>))"
    if f: "find (search level_filt) (conf_raw body) = Some l"
  proof (cases "map_of log_level cand")
    case None
    with f c show ?thesis
      by (simp add: set_log_level_read set_scan_find critical_twice_at_INFO setLevel_def)
  next
    case (Some n)
    then have "n \<noteq> NOTSET" by (rule level_of_name_set)
    with f c Some show ?thesis
      by (simp add: set_log_level_read set_scan_find info_after_setLevel setLevel_def)
  qed
  have i: "iteration cf t w =
                (case map_of log_level cand of
                   Some n \<Rightarrow>
                     Inr (w\<lparr>mod_time := m, opens := Suc (opens w),
                            lg := (lg w)\<lparr>level := n,
                                          logged := logged (lg w) @
                                            (if n \<le> INFO
                                             then [(INFO, ''Log level changed to: '' @ cand)]
                                             else [])\<rparr>\<rparr>)
                 | None \<Rightarrow>
                     Inr (w\<lparr>mod_time := m, opens := Suc (opens w),
                            lg := (lg w)\<lparr>level := INFO,
                                          logged := logged (lg w) @
                                            (if getEffectiveLevel (lg w) \<le> CRITICAL
                                             then [(CRITICAL, ''Bad option in '' @ cf
                                                      @ ''. Level: '' @ cand @ '' is not valid'')]
                                             else []) @
                                            [(CRITICAL, ''Level has been set to INFO'')]\<rparr>\<rparr>))"
    if f: "find (search level_filt) (conf_raw body) = Some l"
      and g: "getmtime t = Inr m \<and> m \<noteq> mod_time w \<and> content t = Inr body"
  proof (cases "map_of log_level cand")
    case None
    with f g c show ?thesis
      by (simp add: iteration_changed thread_scan_find critical_around_setLevel INFO_of_dict setLevel_def)
  next
    case (Some n)
    then have "n \<noteq> NOTSET" by (rule level_of_name_set)
    with f g c Some show ?thesis
      by (simp add: iteration_changed thread_scan_find info_after_setLevel setLevel_def)
  qed
  from c s i show ?thesis by blast
qed

text \<open>
  C1 at the line \<open>level=INFO=x\<close>: the candidate is \<open>INFO\<close>, which is a valid name.
\<close>

theorem candidate_is_second_field_witness:
  "search level_filt ''level=INFO=x''
   \<and> item1 (split CHR ''='' ''level=INFO=x'') = Inr ''INFO''
   \<and> set_log_level ''log.conf'' (Inr ''level=INFO=x\<newline>'')
        \<lparr>level = NOTSET, inherited = WARNING, logged = []\<rparr> =
       Inr \<lparr>level = INFO, inherited = WARNING,
            logged = [(INFO, ''Log level started as: INFO'')]\<rparr>"
proof -
  have m: "search level_filt ''level=INFO=x''" by code_simp
  have c: "''INFO'' = takeWhile (\<lambda>c. c \<noteq> CHR ''='') (tl (dropWhile (\<lambda>c. c \<noteq> CHR ''='') ''level=INFO=x''))"
    by simp
  have f: "find (search level_filt) (conf_raw ''level=INFO=x\<newline>'') = Some ''level=INFO=x''"
    by code_simp
  have v: "map_of log_level ''INFO'' = Some INFO" by (simp add: log_level_def)
  from candidate_is_second_field [OF m c, of "''level=INFO=x\<newline>''" "''log.conf''"
      "\<lparr>level = NOTSET, inherited = WARNING, logged = []\<rparr>"] m f v
  show ?thesis by simp
qed

text \<open>
  The candidate is not everything after the first \<open>=\<close>: on \<open>level=INFO=x\<close> it is not
  \<open>INFO=x\<close>, and the line is accepted as a valid directive by both functions (no
  critical message, the level named before the second \<open>=\<close> is set).
\<close>

theorem candidate_whole_rest_counterexample:
  "search level_filt ''level=INFO=x''
   \<and> item1 (split CHR ''='' ''level=INFO=x'') \<noteq> Inr ''INFO=x''
   \<and> set_log_level ''log.conf'' (Inr ''level=INFO=x\<newline>'')
        \<lparr>level = NOTSET, inherited = WARNING, logged = []\<rparr> =
       Inr \<lparr>level = INFO, inherited = WARNING,
            logged = [(INFO, ''Log level started as: INFO'')]\<rparr>
   \<and> iteration ''log.conf'' \<lparr>getmtime = Inr 6, content = Inr ''level=DEBUG=x\<newline>''\<rparr>
        \<lparr>mod_time = 5, lg = \<lparr>level = INFO, inherited = WARNING, logged = []\<rparr>, opens = 0\<rparr> =
       Inr \<lparr>mod_time = 6,
            lg = \<lparr>level = DEBUG, inherited = WARNING,
                   logged = [(INFO, ''Log level changed to: DEBUG'')]\<rparr>,
            opens = 1\<rparr>"
  by code_simp

text \<open>
  C2 at a comment line indented by one space. In \<^verbatim>\<open>^[ ]*[^#]\<close> the star may take
  no space at all, and then the negated class matches the space itself: the line is
  retained, stripped to \<open>#level=CRITICAL\<close>, found by \<^verbatim>\<open>level_filt\<close>, and its level is
  set by both functions, ahead of the directive \<open>level=DEBUG\<close> that follows it. (At
  the threshold CRITICAL the message about the new level is not logged; with a comment
  \<open>#level=DEBUG\<close> it is.)
\<close>

theorem indented_comment_is_parsed:
  "search cmnt_filt '' #level=CRITICAL\<newline>''
   \<and> conf_raw '' #level=CRITICAL\<newline>level=DEBUG\<newline>'' = [''#level=CRITICAL'', ''level=DEBUG'']
   \<and> set_log_level ''log.conf'' (Inr '' #level=CRITICAL\<newline>level=DEBUG\<newline>'')
        \<lparr>level = NOTSET, inherited = WARNING, logged = []\<rparr> =
       Inr \<lparr>level = CRITICAL, inherited = WARNING, logged = []\<rparr>
   \<and> iteration ''log.conf''
        \<lparr>getmtime = Inr 6, content = Inr '' #level=CRITICAL\<newline>level=DEBUG\<newline>''\<rparr>
        \<lparr>mod_time = 5, lg = \<lparr>level = INFO, inherited = WARNING, logged = []\<rparr>, opens = 0\<rparr> =
       Inr \<lparr>mod_time = 6,
            lg = \<lparr>level = CRITICAL, inherited = WARNING, logged = []\<rparr>,
            opens = 1\<rparr>
   \<and> iteration ''log.conf''
        \<lparr>getmtime = Inr 6, content = Inr '' #level=DEBUG\<newline>level=ERROR\<newline>''\<rparr>
        \<lparr>mod_time = 5, lg = \<lparr>level = INFO, inherited = WARNING, logged = []\<rparr>, opens = 0\<rparr> =
       Inr \<lparr>mod_time = 6,
            lg = \<lparr>level = DEBUG, inherited = WARNING,
                   logged = [(INFO, ''Log level changed to: DEBUG'')]\<rparr>,
            opens = 1\<rparr>"
  by code_simp

text \<open>
  C3 at a file that is missing when the thread starts. The call of
  \<^verbatim>\<open>os.path.getmtime\<close> before the loop is outside every \<^verbatim>\<open>try\<close>: its exception
  leaves \<^verbatim>\<open>log_level_thread\<close>, nothing is logged, and no tick is ever polled, although
  the file is back at the first tick. The caller of \<^verbatim>\<open>init_timertng_log\<close> gets its
  logger and goes on without the thread.
\<close>

theorem first_getmtime_failure_ends_thread:
  "log_level_thread ''log.conf'' (Inl (Exception ''No such file or directory''))
       [\<lparr>getmtime = Inr 6, content = Inr ''level=DEBUG\<newline>''\<rparr>]
       \<lparr>level = INFO, inherited = WARNING, logged = []\<rparr>
     = Inl (Exception ''No such file or directory'')
   \<and> init_timertng_log ''log.conf'' ''app.log'' 0
       \<lparr>level = NOTSET, inherited = WARNING, logged = []\<rparr> (\<lambda>log_file. Inr ())
       (Inr ''level=INFO\<newline>'')
       (Inl (Exception ''No such file or directory''))
       [\<lparr>getmtime = Inr 6, content = Inr ''level=DEBUG\<newline>''\<rparr>]
     = Inr (\<lparr>level = INFO, inherited = WARNING,
              logged = [(INFO, ''Log level started as: INFO'')]\<rparr>,
            Inl (Exception ''No such file or directory''))"
  by code_simp

text \<open>
  C4. When opening or reading the configuration file fails in the synchronous parse,
  \<^verbatim>\<open>set_log_level\<close> leaves with \<^verbatim>\<open>SystemExit\<close>; called from
  \<^verbatim>\<open>init_timertng_log\<close> (which calls it once the handler on the log file is
  constructed), the exit leaves \<^verbatim>\<open>init_timertng_log\<close> too, and the thread is not
  started. No other state of the configuration file is fatal: whatever text it holds,
  \<^verbatim>\<open>set_log_level\<close> returns with the threshold at one of the five levels, and
  \<^verbatim>\<open>init_timertng_log\<close> returns the logger and starts the thread. The last part says
  when \<^verbatim>\<open>init_timertng_log\<close> ends with an exception at all: on a rotation hour
  outside 0..23, on a handler that cannot be constructed on the log file, or on a
  configuration file that cannot be read; the first two do not come from the
  configuration file and are raised before it is read.
\<close>

theorem unreadable_config_exits:
  "set_log_level cf (Inl e) logger = Inl (SystemExit e)
   \<and> (\<exists>logger'. set_log_level cf (Inr body) logger = Inr logger'
         \<and> level logger' \<in> {DEBUG, INFO, WARNING, ERROR, CRITICAL})
   \<and> (0 \<le> rot_hour \<and> rot_hour \<le> 23 \<and> handler log_file = Inr () \<longrightarrow>
        init_timertng_log cf log_file rot_hour logger handler (Inl e) first_mtime ticks
          = Inl (SystemExit e)
        \<and> (\<exists>logger'.
             init_timertng_log cf log_file rot_hour logger handler (Inr body) first_mtime ticks
               = Inr (logger', log_level_thread cf first_mtime ticks logger')
             \<and> level logger' \<in> {DEBUG, INFO, WARNING, ERROR, CRITICAL}))
   \<and> isl (init_timertng_log cf log_file rot_hour logger handler opened first_mtime ticks)
       = (rot_hour < 0 \<or> 23 < rot_hour \<or> isl (handler log_file) \<or> isl opened)"
proof (intro conjI impI)
  show "set_log_level cf (Inl e) logger = Inl (SystemExit e)"
    by (simp add: set_log_level_def)
  show "\<exists>logger'. set_log_level cf (Inr body) logger = Inr logger'
         \<and> level logger' \<in> {DEBUG, INFO, WARNING, ERROR, CRITICAL}"
    by (rule set_log_level_returns)
next
  assume ok: "0 \<le> rot_hour \<and> rot_hour \<le> 23 \<and> handler log_file = Inr ()"
  then show "init_timertng_log cf log_file rot_hour logger handler (Inl e) first_mtime ticks
          = Inl (SystemExit e)"
    by (simp add: init_timertng_log_def dt_time_def set_log_level_def)
  from set_log_level_returns [of cf body logger] ok
  show "\<exists>logger'.
             init_timertng_log cf log_file rot_hour logger handler (Inr body) first_mtime ticks
               = Inr (logger', log_level_thread cf first_mtime ticks logger')
             \<and> level logger' \<in> {DEBUG, INFO, WARNING, ERROR, CRITICAL}"
    by (auto simp: init_timertng_log_def dt_time_def)
next
  show "isl (init_timertng_log cf log_file rot_hour logger handler opened first_mtime ticks)
       = (rot_hour < 0 \<or> 23 < rot_hour \<or> isl (handler log_file) \<or> isl opened)"
  proof (cases opened)
    case (Inl x)
    then show ?thesis
      by (auto simp: init_timertng_log_def dt_time_def set_log_level_def split: sum.splits)
  next
    case (Inr x)
    with set_log_level_returns [of cf x logger] show ?thesis
      by (auto simp: init_timertng_log_def dt_time_def split: sum.splits)
  qed
qed

text \<open>C4 at a file that cannot be read, and at a file with a bad level.\<close>

theorem unreadable_config_exits_witness:
  "init_timertng_log ''log.conf'' ''app.log'' 3
     \<lparr>level = NOTSET, inherited = WARNING, logged = []\<rparr> (\<lambda>log_file. Inr ())
     (Inl (Exception ''Permission denied'')) (Inr 5) []
     = Inl (SystemExit (Exception ''Permission denied''))
   \<and> (\<exists>logger'. init_timertng_log ''log.conf'' ''app.log'' 3
         \<lparr>level = NOTSET, inherited = WARNING, logged = []\<rparr> (\<lambda>log_file. Inr ())
         (Inr ''level=nonsense'') (Inr 5) [] =
         Inr (logger', log_level_thread ''log.conf'' (Inr 5) [] logger'))"
  using unreadable_config_exits [of "''log.conf''" "Exception ''Permission denied''"
      "\<lparr>level = NOTSET, inherited = WARNING, logged = []\<rparr>" "''level=nonsense''" 3
      "\<lambda>log_file. Inr ()" "''app.log''" "Inr 5" "[]"]
  by auto

text \<open>
  C5, as the code has it. An iteration of the thread in which \<^verbatim>\<open>os.path.getmtime\<close>
  raises, or in which the modification time has changed and opening or reading the file
  raises, makes three \<^verbatim>\<open>logger.error\<close> calls (the conflict, the exception, the
  retry). They are logged when the effective level of the logger is at most ERROR, and
  dropped otherwise. The threshold stays as it was and the loop goes on. After a failed
  \<^verbatim>\<open>getmtime\<close> the stored time is the old one, so a next tick that shows another
  time opens the file. After a failed read the stored time is already the new one: a next
  tick that shows the same time changes nothing and does not open the file again, and a
  next tick that shows yet another time opens it a second time.
\<close>

theorem access_error_handled:
  "(getmtime t = Inl e \<longrightarrow>
      iteration cf t w =
        Inr (w\<lparr>lg := (lg w)\<lparr>logged := logged (lg w) @
               (if getEffectiveLevel (lg w) \<le> ERROR
                then [(ERROR, ''Conflict while getting mod time for '' @ cf),
                      (ERROR, str e),
                      (ERROR, ''Retrying geting mod time...'')]
                else [])\<rparr>\<rparr>)
      \<and> (getmtime t2 = Inr m2 \<and> m2 \<noteq> mod_time w \<longrightarrow>
           (\<exists>w2. poll cf [t, t2] w = Inr w2 \<and> mod_time w2 = m2 \<and>
                 opens w2 = Suc (opens w))))
   \<and> (getmtime t = Inr m \<and> m \<noteq> mod_time w \<and> content t = Inl e \<longrightarrow>
      iteration cf t w =
        Inr (w\<lparr>mod_time := m, opens := Suc (opens w),
               lg := (lg w)\<lparr>logged := logged (lg w) @
                 (if getEffectiveLevel (lg w) \<le> ERROR
                  then [(ERROR, ''Conflict while modifying '' @ cf),
                        (ERROR, str e),
                        (ERROR, ''Retrying to set the log level...'')]
                  else [])\<rparr>\<rparr>)
      \<and> (getmtime t2 = Inr m \<longrightarrow> poll cf [t, t2] w = iteration cf t w)
      \<and> (getmtime t2 = Inr m2 \<and> m2 \<noteq> m \<longrightarrow>
           (\<exists>w2. poll cf [t, t2] w = Inr w2 \<and> mod_time w2 = m2 \<and>
                 opens w2 = Suc (Suc (opens w)))))"
proof (intro conjI impI)
  assume f: "getmtime t = Inl e"
  then show a: "iteration cf t w =
        Inr (w\<lparr>lg := (lg w)\<lparr>logged := logged (lg w) @
               (if getEffectiveLevel (lg w) \<le> ERROR
                then [(ERROR, ''Conflict while getting mod time for '' @ cf),
                      (ERROR, str e),
                      (ERROR, ''Retrying geting mod time...'')]
                else [])\<rparr>\<rparr>)"
    by (rule iteration_getmtime_failed)
  assume n: "getmtime t2 = Inr m2 \<and> m2 \<noteq> mod_time w"
  define w1 where "w1 = w\<lparr>lg := (lg w)\<lparr>logged := logged (lg w) @
               (if getEffectiveLevel (lg w) \<le> ERROR
                then [(ERROR, ''Conflict while getting mod time for '' @ cf),
                      (ERROR, str e),
                      (ERROR, ''Retrying geting mod time...'')]
                else [])\<rparr>\<rparr>"
  have "mod_time w1 = mod_time w" and o: "opens w1 = opens w" by (simp_all add: w1_def)
  with n iteration_opens [of t2 m2 w1 cf]
  obtain w2 where "iteration cf t2 w1 = Inr w2" "mod_time w2 = m2" "opens w2 = Suc (opens w)"
    by auto
  with a show "\<exists>w2. poll cf [t, t2] w = Inr w2 \<and> mod_time w2 = m2 \<and> opens w2 = Suc (opens w)"
    by (simp add: w1_def)
next
  assume f: "getmtime t = Inr m \<and> m \<noteq> mod_time w \<and> content t = Inl e"
  define w1 where "w1 = w\<lparr>mod_time := m, opens := Suc (opens w),
               lg := (lg w)\<lparr>logged := logged (lg w) @
                 (if getEffectiveLevel (lg w) \<le> ERROR
                  then [(ERROR, ''Conflict while modifying '' @ cf),
                        (ERROR, str e),
                        (ERROR, ''Retrying to set the log level...'')]
                  else [])\<rparr>\<rparr>"
  from f have a: "iteration cf t w = Inr w1"
    unfolding w1_def by (simp add: iteration_read_failed)
  then show "iteration cf t w =
        Inr (w\<lparr>mod_time := m, opens := Suc (opens w),
               lg := (lg w)\<lparr>logged := logged (lg w) @
                 (if getEffectiveLevel (lg w) \<le> ERROR
                  then [(ERROR, ''Conflict while modifying '' @ cf),
                        (ERROR, str e),
                        (ERROR, ''Retrying to set the log level...'')]
                  else [])\<rparr>\<rparr>)"
    by (simp add: w1_def)
  have m1: "mod_time w1 = m" and o1: "opens w1 = Suc (opens w)" by (simp_all add: w1_def)
  {
    assume "getmtime t2 = Inr m"
    with m1 have "iteration cf t2 w1 = Inr w1" by (simp add: iteration_def)
    with a show "poll cf [t, t2] w = iteration cf t w" by simp
  }
  {
    assume "getmtime t2 = Inr m2 \<and> m2 \<noteq> m"
    with m1 o1 iteration_opens [of t2 m2 w1 cf]
    obtain w2 where "iteration cf t2 w1 = Inr w2" "mod_time w2 = m2"
      "opens w2 = Suc (Suc (opens w))"
      by auto
    with a show "\<exists>w2. poll cf [t, t2] w = Inr w2 \<and> mod_time w2 = m2 \<and>
                 opens w2 = Suc (Suc (opens w))"
      by simp
  }
qed

text \<open>
  C5 at a tick where the file is missing, at one where it cannot be read, and at the
  tick after it, which shows the same time.
\<close>

theorem access_error_handled_witness:
  "iteration ''log.conf''
     \<lparr>getmtime = Inl (Exception ''No such file''), content = Inl (Exception ''No such file'')\<rparr>
     \<lparr>mod_time = 5, lg = \<lparr>level = DEBUG, inherited = WARNING, logged = []\<rparr>, opens = 0\<rparr>
   = Inr \<lparr>mod_time = 5,
          lg = \<lparr>level = DEBUG, inherited = WARNING,
                 logged = [(ERROR, ''Conflict while getting mod time for log.conf''),
                           (ERROR, ''No such file''),
                           (ERROR, ''Retrying geting mod time...'')]\<rparr>,
          opens = 0\<rparr>
   \<and> iteration ''log.conf''
     \<lparr>getmtime = Inr 6, content = Inl (Exception ''Permission denied'')\<rparr>
     \<lparr>mod_time = 5, lg = \<lparr>level = DEBUG, inherited = WARNING, logged = []\<rparr>, opens = 0\<rparr>
   = Inr \<lparr>mod_time = 6,
          lg = \<lparr>level = DEBUG, inherited = WARNING,
                 logged = [(ERROR, ''Conflict while modifying log.conf''),
                           (ERROR, ''Permission denied''),
                           (ERROR, ''Retrying to set the log level...'')]\<rparr>,
          opens = 1\<rparr>
   \<and> poll ''log.conf''
       [\<lparr>getmtime = Inr 6, content = Inl (Exception ''Permission denied'')\<rparr>,
        \<lparr>getmtime = Inr 6, content = Inr ''level=ERROR\<newline>''\<rparr>]
       \<lparr>mod_time = 5, lg = \<lparr>level = DEBUG, inherited = WARNING, logged = []\<rparr>, opens = 0\<rparr>
     = iteration ''log.conf''
         \<lparr>getmtime = Inr 6, content = Inl (Exception ''Permission denied'')\<rparr>
         \<lparr>mod_time = 5, lg = \<lparr>level = DEBUG, inherited = WARNING, logged = []\<rparr>, opens = 0\<rparr>"
proof -
  let ?w = "\<lparr>mod_time = 5, lg = \<lparr>level = DEBUG, inherited = WARNING, logged = []\<rparr>, opens = 0\<rparr>"
  let ?t1 = "\<lparr>getmtime = Inl (Exception ''No such file''), content = Inl (Exception ''No such file'')\<rparr>"
  let ?t2 = "\<lparr>getmtime = Inr 6, content = Inl (Exception ''Permission denied'')\<rparr>"
  let ?t3 = "\<lparr>getmtime = Inr 6, content = Inr ''level=ERROR\<newline>''\<rparr>"
  have lv: "getEffectiveLevel \<lparr>level = DEBUG, inherited = WARNING, logged = []\<rparr> \<le> ERROR"
    by (simp add: getEffectiveLevel_def DEBUG_def NOTSET_def ERROR_def)
  note first = access_error_handled [of ?t1 "Exception ''No such file''" "''log.conf''" ?w ?t3 6 0]
  note second = access_error_handled [of ?t2 "Exception ''Permission denied''" "''log.conf''" ?w ?t3 0 6]
  have a: "iteration ''log.conf'' ?t1 ?w
    = Inr \<lparr>mod_time = 5,
          lg = \<lparr>level = DEBUG, inherited = WARNING,
                 logged = [(ERROR, ''Conflict while getting mod time for log.conf''),
                           (ERROR, ''No such file''),
                           (ERROR, ''Retrying geting mod time...'')]\<rparr>,
          opens = 0\<rparr>"
    using first lv by (simp del: poll.simps)
  have b: "iteration ''log.conf'' ?t2 ?w
    = Inr \<lparr>mod_time = 6,
          lg = \<lparr>level = DEBUG, inherited = WARNING,
                 logged = [(ERROR, ''Conflict while modifying log.conf''),
                           (ERROR, ''Permission denied''),
                           (ERROR, ''Retrying to set the log level...'')]\<rparr>,
          opens = 1\<rparr>"
    using second lv by (simp del: poll.simps)
  have c: "poll ''log.conf'' [?t2, ?t3] ?w = iteration ''log.conf'' ?t2 ?w"
    using second by (simp del: poll.simps)
  from a b c show ?thesis by blast
qed

text \<open>
  The error is not always logged, and a failed read is not tried again on the next tick.
  At the threshold CRITICAL a failing \<^verbatim>\<open>getmtime\<close> leaves the state as it was,
  nothing logged. After a read that failed, a tick with the same modification time and a
  file that can be read again (\<open>level=DEBUG\<close>) does not open the file: one open, and the
  level is still INFO.
\<close>

theorem access_error_counterexample:
  "iteration ''log.conf''
     \<lparr>getmtime = Inl (Exception ''No such file''), content = Inl (Exception ''No such file'')\<rparr>
     \<lparr>mod_time = 5, lg = \<lparr>level = CRITICAL, inherited = WARNING, logged = []\<rparr>, opens = 0\<rparr>
   = Inr \<lparr>mod_time = 5, lg = \<lparr>level = CRITICAL, inherited = WARNING, logged = []\<rparr>, opens = 0\<rparr>
   \<and> poll ''log.conf''
       [\<lparr>getmtime = Inr 6, content = Inl (Exception ''Permission denied'')\<rparr>,
        \<lparr>getmtime = Inr 6, content = Inr ''level=DEBUG\<newline>''\<rparr>]
       \<lparr>mod_time = 5, lg = \<lparr>level = INFO, inherited = WARNING, logged = []\<rparr>, opens = 0\<rparr>
     = Inr \<lparr>mod_time = 6,
            lg = \<lparr>level = INFO, inherited = WARNING,
                   logged = [(ERROR, ''Conflict while modifying log.conf''),
                             (ERROR, ''Permission denied''),
                             (ERROR, ''Retrying to set the log level...'')]\<rparr>,
            opens = 1\<rparr>"
  by code_simp



text \<open>
  C7, as the code has it. For each of the five names \<open>S\<close>, with \<open>n\<close> the level
  \<^verbatim>\<open>log_level\<close> gives it: when the thread sees a changed modification time and the
  candidate of the first retained line matching \<^verbatim>\<open>level_filt\<close> is exactly \<open>S\<close>, the
  iteration sets the threshold to \<open>n\<close> and then calls \<^verbatim>\<open>logger.info\<close> with a message
  naming \<open>S\<close>. The call is made under the new threshold: the message is logged when \<open>S\<close>
  is DEBUG or INFO, and dropped when \<open>S\<close> is WARNING, ERROR or CRITICAL.
\<close>

theorem valid_level_applied:
  assumes "find (search level_filt) (conf_raw body) = Some l"
    and "item1 (split CHR ''='' l) = Inr S"
    and "(S, n) \<in> {(''DEBUG'', DEBUG), (''INFO'', INFO), (''WARNING'', WARNING),
                    (''ERROR'', ERROR), (''CRITICAL'', CRITICAL)}"
    and "getmtime t = Inr m" and "m \<noteq> mod_time w" and "content t = Inr body"
  shows "iteration cf t w =
           Inr (w\<lparr>mod_time := m, opens := Suc (opens w),
                  lg := (lg w)\<lparr>level := n,
                                logged := logged (lg w) @
                                  (if S = ''DEBUG'' \<or> S = ''INFO''
                                   then [(INFO, ''Log level changed to: '' @ S)]
                                   else [])\<rparr>\<rparr>)"
proof -
  from assms(3) have d: "map_of log_level S = Some n"
    by (auto simp: log_level_def)
  then have z: "n \<noteq> NOTSET" by (rule level_of_name_set)
  from assms(3) have c: "(n \<le> INFO) = (S = ''DEBUG'' \<or> S = ''INFO'')"
    by (auto simp: DEBUG_def INFO_def WARNING_def ERROR_def CRITICAL_def)
  from d assms(1,2) have "thread_scan cf (conf_raw body) (lg w) =
      Inr (info (''Log level changed to: '' @ S) (setLevel n (lg w)))"
    by (simp add: thread_scan_find)
  with assms(4-6) z c show ?thesis
    by (simp add: iteration_changed info_after_setLevel setLevel_def)
qed

text \<open>C7 at a file changed to \<open>level=DEBUG\<close>.\<close>

theorem valid_level_applied_witness:
  "iteration ''log.conf'' \<lparr>getmtime = Inr 6, content = Inr ''# conf\<newline>level=DEBUG\<newline>''\<rparr>
     \<lparr>mod_time = 5, lg = \<lparr>level = ERROR, inherited = WARNING, logged = []\<rparr>, opens = 0\<rparr>
   = Inr \<lparr>mod_time = 6,
          lg = \<lparr>level = DEBUG, inherited = WARNING,
                 logged = [(INFO, ''Log level changed to: DEBUG'')]\<rparr>,
          opens = 1\<rparr>"
proof -
  have f: "find (search level_filt) (conf_raw ''# conf\<newline>level=DEBUG\<newline>'') = Some ''level=DEBUG''"
    by code_simp
  have c: "item1 (split CHR ''='' ''level=DEBUG'') = Inr ''DEBUG''"
    by code_simp
  show ?thesis
    using valid_level_applied [OF f c, of DEBUG
        "\<lparr>getmtime = Inr 6, content = Inr ''# conf\<newline>level=DEBUG\<newline>''\<rparr>" 6
        "\<lparr>mod_time = 5, lg = \<lparr>level = ERROR, inherited = WARNING, logged = []\<rparr>, opens = 0\<rparr>"
        "''log.conf''"]
    by simp
qed

text \<open>
  No informational message is logged for \<open>level=ERROR\<close>: the threshold becomes ERROR
  and the list of logged messages stays empty.
\<close>

theorem info_message_dropped_counterexample:
  "iteration ''log.conf'' \<lparr>getmtime = Inr 6, content = Inr ''level=ERROR\<newline>''\<rparr>
     \<lparr>mod_time = 5, lg = \<lparr>level = DEBUG, inherited = WARNING, logged = []\<rparr>, opens = 0\<rparr>
   = Inr \<lparr>mod_time = 6,
          lg = \<lparr>level = ERROR, inherited = WARNING, logged = []\<rparr>,
          opens = 1\<rparr>"
  by code_simp

text \<open>
  C8. In an iteration of the thread in which the current modification time equals the
  stored one, nothing happens: the state after the iteration is the state before it, so
  the file was not opened (\<open>opens\<close>), nothing was parsed or logged (\<open>logged\<close>), and the
  threshold (\<open>level\<close>) and the stored time (\<open>mod_time\<close>) are as they were, whatever
  the file holds at that moment.
\<close>

theorem unchanged_mtime_no_effect:
  "getmtime t = Inr (mod_time w) \<Longrightarrow> iteration cf t w = Inr w"
  by (simp add: iteration_def)

text \<open>C8 at a tick whose modification time is the stored one.\<close>

theorem unchanged_mtime_no_effect_witness:
  "iteration ''log.conf'' \<lparr>getmtime = Inr 5, content = Inr ''level=DEBUG''\<rparr>
     \<lparr>mod_time = 5, lg = \<lparr>level = INFO, inherited = WARNING, logged = []\<rparr>, opens = 0\<rparr>
   = Inr \<lparr>mod_time = 5, lg = \<lparr>level = INFO, inherited = WARNING, logged = []\<rparr>, opens = 0\<rparr>"
  using unchanged_mtime_no_effect [of "\<lparr>getmtime = Inr 5, content = Inr ''level=DEBUG''\<rparr>"
      "\<lparr>mod_time = 5, lg = \<lparr>level = INFO, inherited = WARNING, logged = []\<rparr>, opens = 0\<rparr>"
      "''log.conf''"]
  by simp

text \<open>
  C9. When the thread sees a changed modification time, the stored time is the new one
  after the iteration, whether reading the file then succeeds or fails, and the file was
  opened once. If the read fails and the ticks that follow all see that same time, the
  state stays the one the failed iteration left: the file is not opened again.
\<close>

theorem mtime_stored_before_read:
  assumes "getmtime t = Inr m" and "m \<noteq> mod_time w"
  shows "(\<exists>w'. iteration cf t w = Inr w' \<and> mod_time w' = m \<and> opens w' = Suc (opens w))
    \<and> (content t = Inl e \<longrightarrow>
         (\<exists>w'. iteration cf t w = Inr w' \<and> mod_time w' = m \<and> opens w' = Suc (opens w) \<and>
            (\<forall>ts. (\<forall>t'\<in>set ts. getmtime t' = Inr m) \<longrightarrow> poll cf (t # ts) w = Inr w')))"
proof (intro conjI impI)
  show "\<exists>w'. iteration cf t w = Inr w' \<and> mod_time w' = m \<and> opens w' = Suc (opens w)"
    using assms by (rule iteration_opens)
next
  assume failed: "content t = Inl e"
  obtain w' where step: "iteration cf t w = Inr w'"
    and m: "mod_time w' = m" and o: "opens w' = Suc (opens w)"
    using assms iteration_opens by blast
  have "poll cf (t # ts) w = Inr w'" if "\<forall>t'\<in>set ts. getmtime t' = Inr m" for ts
    using that poll_unchanged [of ts w' cf] m step by simp
  with step m o
  show "\<exists>w'. iteration cf t w = Inr w' \<and> mod_time w' = m \<and> opens w' = Suc (opens w) \<and>
            (\<forall>ts. (\<forall>t'\<in>set ts. getmtime t' = Inr m) \<longrightarrow> poll cf (t # ts) w = Inr w')"
    by blast
qed

text \<open>C9 at a read that fails, followed by two ticks with the same time.\<close>

theorem mtime_stored_before_read_witness:
  "poll ''log.conf''
     [\<lparr>getmtime = Inr 6, content = Inl (Exception ''Permission denied'')\<rparr>,
      \<lparr>getmtime = Inr 6, content = Inr ''level=DEBUG\<newline>''\<rparr>,
      \<lparr>getmtime = Inr 6, content = Inr ''level=DEBUG\<newline>''\<rparr>]
     \<lparr>mod_time = 5, lg = \<lparr>level = INFO, inherited = WARNING, logged = []\<rparr>, opens = 0\<rparr>
   = iteration ''log.conf'' \<lparr>getmtime = Inr 6, content = Inl (Exception ''Permission denied'')\<rparr>
       \<lparr>mod_time = 5, lg = \<lparr>level = INFO, inherited = WARNING, logged = []\<rparr>, opens = 0\<rparr>
   \<and> (\<exists>w'. iteration ''log.conf'' \<lparr>getmtime = Inr 6, content = Inl (Exception ''Permission denied'')\<rparr>
       \<lparr>mod_time = 5, lg = \<lparr>level = INFO, inherited = WARNING, logged = []\<rparr>, opens = 0\<rparr> = Inr w'
       \<and> mod_time w' = 6 \<and> opens w' = 1 \<and> level (lg w') = INFO)"
proof -
  let ?t = "\<lparr>getmtime = Inr 6, content = Inl (Exception ''Permission denied'')\<rparr>"
  let ?u = "\<lparr>getmtime = Inr 6, content = Inr ''level=DEBUG\<newline>''\<rparr>"
  let ?w = "\<lparr>mod_time = 5, lg = \<lparr>level = INFO, inherited = WARNING, logged = []\<rparr>, opens = 0\<rparr>"
  have a: "getmtime ?t = Inr 6" by simp
  have b: "(6::real) \<noteq> mod_time ?w" by simp
  have c: "content ?t = Inl (Exception ''Permission denied'')" by simp
  have d: "\<forall>t'\<in>set [?u, ?u]. getmtime t' = Inr 6" by simp
  from mtime_stored_before_read [OF a b, of "''log.conf''" "Exception ''Permission denied''"] c
  obtain w' where step: "iteration ''log.conf'' ?t ?w = Inr w'"
    and m: "mod_time w' = 6" and o: "opens w' = Suc 0"
    and rest: "\<forall>ts. (\<forall>t'\<in>set ts. getmtime t' = Inr 6) \<longrightarrow> poll ''log.conf'' (?t # ts) ?w = Inr w'"
    by auto
  from rest d have "poll ''log.conf'' [?t, ?u, ?u] ?w = Inr w'" by blast
  moreover have "level (lg w') = INFO"
    using step by (auto simp: iteration_read_failed)
  ultimately show ?thesis using step m o by simp
qed

text \<open>
  C10. In both \<^verbatim>\<open>set_log_level\<close> and \<^verbatim>\<open>log_level_thread\<close>, taking element 1 of
  the split of a line on \<open>=\<close> never goes out of bounds: a line that reaches the
  expression has matched \<^verbatim>\<open>level_filt\<close>, so it contains a \<open>=\<close> and its split has at
  least two elements. Neither loop over the retained lines can end with IndexError.
\<close>

theorem split_index_in_bounds:
  "(search level_filt l \<longrightarrow>
      CHR ''='' \<in> set l \<and> 2 \<le> length (split CHR ''='' l) \<and>
      item1 (split CHR ''='' l) = Inr (split CHR ''='' l ! 1))
   \<and> set_scan cf conf logger \<noteq> Inl IndexError
   \<and> thread_scan cf conf logger \<noteq> Inl IndexError"
proof (intro conjI impI)
  assume m: "search level_filt l"
  then show e: "CHR ''='' \<in> set l" by (rule level_filt_has_eq)
  then show n: "2 \<le> length (split CHR ''='' l)" by (rule length_split)
  then show "item1 (split CHR ''='' l) = Inr (split CHR ''='' l ! 1)" by (rule item1_nth)
next
  show "set_scan cf conf logger \<noteq> Inl IndexError"
    using set_scan_total [of cf conf logger] by auto
next
  show "thread_scan cf conf logger \<noteq> Inl IndexError"
    using thread_scan_total [of cf conf logger] by auto
qed

text \<open>C10 at the line \<open>level=DEBUG\<close>.\<close>

theorem split_index_in_bounds_witness:
  "search level_filt ''level=DEBUG'' \<and>
   2 \<le> length (split CHR ''='' ''level=DEBUG'') \<and>
   item1 (split CHR ''='' ''level=DEBUG'') = Inr (split CHR ''='' ''level=DEBUG'' ! 1) \<and>
   split CHR ''='' ''level=DEBUG'' ! 1 = ''DEBUG'' \<and>
   set_scan ''log.conf'' [''level=DEBUG''] \<lparr>level = INFO, inherited = WARNING, logged = []\<rparr>
     \<noteq> Inl IndexError"
proof -
  have m: "search level_filt ''level=DEBUG''" by code_simp
  have v: "split CHR ''='' ''level=DEBUG'' ! 1 = ''DEBUG''" by code_simp
  from split_index_in_bounds [of "''level=DEBUG''" "''log.conf''" "[''level=DEBUG'']"
      "\<lparr>level = INFO, inherited = WARNING, logged = []\<rparr>"] m v
  show ?thesis by blast
qed

end
